theory Spec2Isabelle
  imports Complex_Main
begin

unbundle bit_operations_syntax

section \<open>Node codec (SOFTWARE/convert\_bin.py)\<close>

subsection \<open>Fixed-point quantisation of a threshold\<close>

text \<open>
  Python integers are unbounded and are modelled as \<open>int\<close>; \<open><<\<close>, \<open>>>\<close>, \<open>&\<close> and
  \<open>|\<close> are \<open>push_bit\<close>, \<open>drop_bit\<close>, \<open>AND\<close> and \<open>OR\<close> on \<open>int\<close> (two's complement
  on negative numbers, as in Python).

  A threshold is a Python float, modelled as the real number it denotes. Scaling a
  double by a power of two is exact as long as the result stays inside the range of a
  double. When it does not, that is when the magnitude of the product reaches
  \<open>2^1024\<close>, the float product is an infinity, and \<open>round\<close> raises \<open>OverflowError\<close> on
  an infinity. This is the one failing branch of \<open>float_to_fixed_point\<close> on a real
  value. (NaN and the infinities are not real values; they are outside the model.)

  \<open>round\<close> on a finite float is Python's built-in: the nearest integer, a tie going to
  the even neighbour.
\<close>

datatype float_error = OverflowError

definition py_round :: "real \<Rightarrow> int" where
  "py_round x =
     (let f = \<lfloor>x\<rfloor>; d = x - of_int f
      in if d < 1 / 2 then f
         else if 1 / 2 < d then f + 1
         else if even f then f else f + 1)"

text \<open>
  The \<open>if\<close>/\<open>elif\<close> chain at the head of \<open>float_to_fixed_point\<close>: the pair
  \<open>(int_bits, frac_bits)\<close> chosen for a feature id. The keyword defaults
  \<open>int_bits=12, frac_bits=15\<close> are overwritten on every path.
\<close>

definition fixed_point_format :: "int \<Rightarrow> nat \<times> nat" where
  "fixed_point_format feature_id =
     (if feature_id = 0 then (11, 16)
      else if feature_id = 1 then (4, 23)
      else if feature_id = 2 then (8, 19)
      else if feature_id = 3 then (8, 19)
      else if feature_id = 4 then (11, 16)
      else if feature_id = 5 then (0, 27)
      else (14, 13))"

definition float_to_fixed_point :: "real \<Rightarrow> int \<Rightarrow> float_error + int" where
  "float_to_fixed_point value feature_id =
     (let (int_bits, frac_bits) = fixed_point_format feature_id;
          product = value * 2 ^ frac_bits
      in if 2 ^ 1024 \<le> \<bar>product\<bar> then Inl OverflowError
         else (let scaled = py_round product;
                   max_val = 2 ^ 27 - 1;
                   min_val = 0;
                   scaled = max min_val (min max_val scaled)
               in Inr (scaled AND 0x7FFFFFF)))"

text \<open>
  The quantisation as the specification words it: the table of fraction bits, then
  round, clamp into \<open>[0, 2^27 - 1]\<close> and mask to 27 bits. The rounding is written
  on its own here, from the library's \<open>round\<close> (nearest integer, a tie going up): a tie
  that went up to an odd integer goes to the even one below instead.
\<close>

definition claimed_fraction_bits :: "int \<Rightarrow> nat" where
  "claimed_fraction_bits feature_id =
     (if feature_id = 0 then 16
      else if feature_id = 1 then 23
      else if feature_id = 2 \<or> feature_id = 3 then 19
      else if feature_id = 4 then 16
      else if feature_id = 5 then 27
      else 13)"



subsection \<open>Packing and unpacking one node\<close>

text \<open>
  One row of the tree table, after the conversions \<open>int(...)\<close>, \<open>str(...)\<close> and
  \<open>float(...)\<close> at the head of \<open>node_to_binary\<close>. The fields carry the column names.
\<close>

record tree_row =
  Node :: int
  Feature :: string
  Threshold :: real
  Left_Child :: int
  Right_Child :: int
  Prediction :: int

definition feature_map :: "(string \<times> int) list" where
  "feature_map =
     [(''00'', 0), (''01'', 1), (''02'', 2), (''03'', 3), (''04'', 4), (''05'', 5)]"

text \<open>\<open>d.get(k, default)\<close> on a dictionary given as its list of items.\<close>

definition dict_get :: "('k \<times> 'v) list \<Rightarrow> 'k \<Rightarrow> 'v \<Rightarrow> 'v" where
  "dict_get d k dflt = (case map_of d k of None \<Rightarrow> dflt | Some v \<Rightarrow> v)"

text \<open>
  The packing expression of \<open>node_to_binary\<close> (\<open>node_value = ...\<close>): every field is
  masked to its width and shifted to its place; bits \<open>[1:0]\<close> stay 0.
\<close>

definition pack_fields :: "int \<Rightarrow> int \<Rightarrow> int \<Rightarrow> int \<Rightarrow> int \<Rightarrow> int \<Rightarrow> int" where
  "pack_fields node_id feature_id threshold_fixed right_child left_child node_type =
     push_bit 56 (node_id AND 0xFF)
     OR push_bit 53 (feature_id AND 0x7)
     OR push_bit 26 (threshold_fixed AND 0x7FFFFFF)
     OR push_bit 18 (right_child AND 0xFF)
     OR push_bit 10 (left_child AND 0xFF)
     OR push_bit 2 (node_type AND 0xFF)"

text \<open>
  A leaf never calls \<open>float_to_fixed_point\<close>; on any other row an \<open>OverflowError\<close> of
  the quantisation leaves \<open>node_to_binary\<close> uncaught.
\<close>

definition node_to_binary :: "tree_row \<Rightarrow> float_error + int" where
  "node_to_binary node_row =
     (let node_id = Node node_row;
          feature = Feature node_row;
          threshold = Threshold node_row;
          left_child = Left_Child node_row;
          right_child = Right_Child node_row;
          prediction = Prediction node_row;
          is_leaf = (feature = ''-1'' \<or> (left_child = 0 \<and> right_child = 0))
      in if is_leaf
         then Inr (pack_fields node_id 0 0 right_child left_child
                     (if prediction = 1 then 0x01 else 0x00))
         else (let feature_id = dict_get feature_map feature 0
               in case float_to_fixed_point threshold feature_id of
                    Inl e \<Rightarrow> Inl e
                  | Inr threshold_fixed \<Rightarrow>
                      Inr (pack_fields node_id feature_id threshold_fixed right_child
                             left_child 0x00)))"

text \<open>The dictionary \<open>decode_node\<close> returns, one field per key.\<close>

record decoded_node =
  node_id :: int
  feature_id :: int
  threshold_raw :: int
  right_child :: int
  left_child :: int
  node_type_value :: int
  node_type :: string
  prediction :: "int option"
  reserved :: int

definition decode_node :: "int \<Rightarrow> decoded_node" where
  "decode_node node_value =
     (let nid = drop_bit 56 node_value AND 0xFF;
          fid = drop_bit 53 node_value AND 0x7;
          threshold = drop_bit 26 node_value AND 0x7FFFFFF;
          right = drop_bit 18 node_value AND 0xFF;
          left = drop_bit 10 node_value AND 0xFF;
          ntype = drop_bit 2 node_value AND 0xFF;
          rsvd = node_value AND 0x3;
          is_leaf = (ntype = 1 \<or> (left = 0 \<and> right = 0))
      in \<lparr>node_id = nid,
          feature_id = fid,
          threshold_raw = threshold,
          right_child = right,
          left_child = left,
          node_type_value = ntype,
          node_type = (if is_leaf then ''Leaf'' else ''Internal''),
          prediction = (if is_leaf then Some ntype else None),
          reserved = rsvd\<rparr>)"

text \<open>
  The leaf rule of the data model, on a source row: the feature is the sentinel or both
  children are 0. The rows of the round-trip property: indices in \<open>0..255\<close>, a known
  feature code or the sentinel, a prediction of 0 or 1.
\<close>

definition row_is_leaf :: "tree_row \<Rightarrow> bool" where
  "row_is_leaf r = (Feature r = ''-1'' \<or> (Left_Child r = 0 \<and> Right_Child r = 0))"


text \<open>
  The numeric id of a symbolic feature name, as a table of its own: the codes \<open>00\<close> to
  \<open>05\<close> stand for the features 0 to 5, and every other name gets id 0.
\<close>

definition claimed_feature_id :: "string \<Rightarrow> int" where
  "claimed_feature_id name =
     (if name = ''00'' then 0
      else if name = ''01'' then 1
      else if name = ''02'' then 2
      else if name = ''03'' then 3
      else if name = ''04'' then 4
      else if name = ''05'' then 5
      else 0)"

text \<open>
  The scaled product of a row's threshold is inside the range of a double: the
  condition under which the quantisation of an internal row returns.
\<close>

definition threshold_in_range :: "tree_row \<Rightarrow> bool" where
  "threshold_in_range r =
     (\<bar>Threshold r * 2 ^ claimed_fraction_bits (claimed_feature_id (Feature r))\<bar> < 2 ^ 1024)"

section \<open>Feature extractor (SOFTWARE/convert\_sample.py)\<close>

subsection \<open>The string built-ins the extractor calls\<close>

text \<open>
  A Python \<open>str\<close> is modelled as a \<open>string\<close> whose characters are the code points
  \<open>0..255\<close>. \<open>ValueError\<close> is the only exception the modelled code can raise; a
  function that can raise returns \<open>py_error + 'a\<close>.
\<close>

datatype py_error = ValueError

text \<open>\<open>str.strip()\<close>: the characters \<open>str.isspace\<close> accepts are removed at both ends.\<close>

definition str_isspace :: "char \<Rightarrow> bool" where
  "str_isspace c =
     List.member [CHR 0x09, CHR 0x0A, CHR 0x0B, CHR 0x0C, CHR 0x0D, CHR 0x1C, CHR 0x1D,
                  CHR 0x1E, CHR 0x1F, CHR 0x20, CHR 0x85, CHR 0xA0] c"

definition str_strip :: "string \<Rightarrow> string" where
  "str_strip s = rev (dropWhile str_isspace (rev (dropWhile str_isspace s)))"

text \<open>
  \<open>s.replace(old, '')\<close>: every occurrence of \<open>old\<close> is removed, found from left to
  right without overlap, in one pass.
\<close>

fun str_remove :: "string \<Rightarrow> string \<Rightarrow> string" where
  "str_remove old [] = []"
| "str_remove old (c # cs) =
     (if old \<noteq> [] \<and> take (length old) (c # cs) = old
      then str_remove old (drop (length old - 1) cs)
      else c # str_remove old cs)"

text \<open>
  \<open>int(s, 16)\<close> on a string: white space is skipped at both ends, then come an optional
  sign, an optional \<open>0x\<close>/\<open>0X\<close> prefix (one underscore may follow it) and the digits;
  single underscores may stand between digits. Anything else raises \<open>ValueError\<close>.
\<close>

definition int_isspace :: "char \<Rightarrow> bool" where
  "int_isspace c =
     List.member [CHR 0x09, CHR 0x0A, CHR 0x0B, CHR 0x0C, CHR 0x0D, CHR 0x20, CHR 0x85,
                  CHR 0xA0] c"

definition digit_value :: "char \<Rightarrow> int option" where
  "digit_value c =
     map_of [(CHR ''0'', 0), (CHR ''1'', 1), (CHR ''2'', 2), (CHR ''3'', 3), (CHR ''4'', 4),
             (CHR ''5'', 5), (CHR ''6'', 6), (CHR ''7'', 7), (CHR ''8'', 8), (CHR ''9'', 9),
             (CHR ''a'', 10), (CHR ''b'', 11), (CHR ''c'', 12), (CHR ''d'', 13),
             (CHR ''e'', 14), (CHR ''f'', 15),
             (CHR ''A'', 10), (CHR ''B'', 11), (CHR ''C'', 12), (CHR ''D'', 13),
             (CHR ''E'', 14), (CHR ''F'', 15)] c"

fun hex_digits :: "bool \<Rightarrow> string \<Rightarrow> int \<Rightarrow> int option" where
  "hex_digits prev_underscore [] acc = (if prev_underscore then None else Some acc)"
| "hex_digits prev_underscore (c # cs) acc =
     (if c = CHR ''_''
      then (if prev_underscore then None else hex_digits True cs acc)
      else (case digit_value c of
              None \<Rightarrow> None
            | Some d \<Rightarrow> hex_digits False cs (16 * acc + d)))"

definition int_base16 :: "string \<Rightarrow> py_error + int" where
  "int_base16 s =
     (let s1 = rev (dropWhile int_isspace (rev (dropWhile int_isspace s)));
          negative = (take 1 s1 = ''-'');
          s2 = (if take 1 s1 = ''+'' \<or> take 1 s1 = ''-'' then drop 1 s1 else s1);
          s3 = (if take 2 s2 = ''0x'' \<or> take 2 s2 = ''0X''
                then (if take 1 (drop 2 s2) = ''_'' then drop 3 s2 else drop 2 s2)
                else s2)
      in if s3 = [] \<or> take 1 s3 = ''_'' then Inl ValueError
         else (case hex_digits False s3 0 of
                 None \<Rightarrow> Inl ValueError
               | Some v \<Rightarrow> Inr (if negative then - v else v)))"

subsection \<open>\<open>CANFeatureConverter.convert_single\<close>\<close>

text \<open>
  The arbitration id is a string or a number (\<open>Union[str, int]\<close>). The converter object
  holds one field, the previous timestamp; \<open>convert_single\<close> takes the object and returns
  it with the outcome. An exception leaves the object as it was, since the only
  assignment to \<open>self.last_timestamp\<close> comes after every call that can raise.
  Timestamps are Python floats, modelled as the real numbers they denote.
  \<open>CANAttackDetector.extract_features\<close> in SOFTWARE/test\_model.py computes the six
  features with the same statements.
\<close>

datatype arb_id = ArbStr string | ArbInt int

record features =
  arb_id_dec :: int
  data_length :: nat
  first_byte :: int
  last_byte :: int
  byte_sum :: int
  time_delta :: real

record can_feature_converter =
  last_timestamp :: "real option"

text \<open>The loop over the two-character chunks; a lone last character is skipped.\<close>

fun byte_sum_loop :: "string \<Rightarrow> int \<Rightarrow> py_error + int" where
  "byte_sum_loop (a # b # rest) acc =
     (case int_base16 [a, b] of
        Inl e \<Rightarrow> Inl e
      | Inr byte_val \<Rightarrow> byte_sum_loop rest (acc + byte_val))"
| "byte_sum_loop [a] acc = Inr acc"
| "byte_sum_loop [] acc = Inr acc"

text \<open>The \<open>try\<close>/\<open>except ValueError\<close> around the loop.\<close>

definition byte_sum_of :: "string \<Rightarrow> int" where
  "byte_sum_of data_str =
     (case byte_sum_loop data_str 0 of Inl ValueError \<Rightarrow> 0 | Inr acc \<Rightarrow> acc)"

text \<open>
  The first feature: a textual arbitration id loses every \<open>0x\<close> and \<open>0X\<close> and its
  surrounding white space and is read in base 16; a number is taken as it is.
\<close>

definition parse_arbitration_id :: "arb_id \<Rightarrow> py_error + int" where
  "parse_arbitration_id arbitration_id =
     (case arbitration_id of
        ArbStr s \<Rightarrow> int_base16 (str_strip (str_remove ''0X'' (str_remove ''0x'' s)))
      | ArbInt n \<Rightarrow> Inr n)"

text \<open>The stripped data field \<open>data_str\<close>.\<close>

definition clean_data :: "string \<Rightarrow> string" where
  "clean_data data_field =
     str_strip (str_remove '' '' (str_remove ''0X'' (str_remove ''0x'' data_field)))"

definition convert_single ::
  "can_feature_converter \<Rightarrow> arb_id \<Rightarrow> string \<Rightarrow> real option
     \<Rightarrow> (py_error + features) \<times> can_feature_converter" where
  "convert_single self arbitration_id data_field timestamp =
     (case parse_arbitration_id arbitration_id of
        Inl e \<Rightarrow> (Inl e, self)
      | Inr arb \<Rightarrow>
          (let data_str = clean_data data_field
           in case (if 2 \<le> length data_str then int_base16 (take 2 data_str) else Inr 0) of
                Inl e \<Rightarrow> (Inl e, self)
              | Inr first_val \<Rightarrow>
                  (case (if 2 \<le> length data_str
                         then int_base16 (drop (length data_str - 2) data_str)
                         else Inr 0) of
                     Inl e \<Rightarrow> (Inl e, self)
                   | Inr last_val \<Rightarrow>
                       (let (delta, self') =
                              (case timestamp of
                                 Some ts \<Rightarrow>
                                   ((case last_timestamp self of
                                       Some prev \<Rightarrow> min (max (ts - prev) 0) 1
                                     | None \<Rightarrow> 0),
                                    self\<lparr>last_timestamp := Some ts\<rparr>)
                               | None \<Rightarrow> (0, self))
                        in (Inr \<lparr>arb_id_dec = arb,
                                 data_length = length data_str,
                                 first_byte = first_val,
                                 last_byte = last_val,
                                 byte_sum = byte_sum_of data_str,
                                 time_delta = delta\<rparr>,
                            self')))))"

text \<open>
  The parse of a textual arbitration id as the specification words it: surrounding white
  space and one optional \<open>0x\<close>/\<open>0X\<close> prefix are stripped, and what is left is read
  in base 16.
\<close>

definition claimed_arb_id_parse :: "string \<Rightarrow> py_error + int" where
  "claimed_arb_id_parse s =
     (let t = str_strip s;
          u = (if take 2 t = ''0x'' \<or> take 2 t = ''0X'' then drop 2 t else t)
      in int_base16 u)"



section \<open>Properties of the quantisation\<close>


lemma py_round_le_floor_Suc: "py_round x \<le> \<lfloor>x\<rfloor> + 1"
  by (simp add: py_round_def Let_def)


lemma py_round_neg:
  assumes "x < 0"
  shows "py_round x \<le> 0"
proof -
  from assms have "\<lfloor>x\<rfloor> \<le> - 1"
    by (simp add: floor_le_iff)
  with py_round_le_floor_Suc [of x] show ?thesis
    by linarith
qed


lemma mask_27_numeral: "(0x7FFFFFF :: int) = mask 27"
  by (simp add: mask_eq_exp_minus_1)

lemma mask_8_numeral: "(0xFF :: int) = mask 8"
  by (simp add: mask_eq_exp_minus_1)

lemma mask_3_numeral: "(0x7 :: int) = mask 3"
  by (simp add: mask_eq_exp_minus_1)

lemma mask_2_numeral: "(0x3 :: int) = mask 2"
  by (simp add: mask_eq_exp_minus_1)

lemma and_mask_27_id:
  assumes "0 \<le> k" and "k \<le> 2 ^ 27 - 1"
  shows "k AND (0x7FFFFFF :: int) = k"
proof -
  have "k < 2 ^ 27"
    using assms(2) by simp
  then have "take_bit 27 k = k"
    using assms(1) by (simp add: take_bit_int_eq_self)
  moreover have "k AND mask 27 = take_bit 27 k"
    by (simp add: take_bit_eq_mask)
  ultimately show ?thesis
    by (simp only: mask_27_numeral)
qed

lemma snd_fixed_point_format: "snd (fixed_point_format fid) = claimed_fraction_bits fid"
  by (simp add: fixed_point_format_def claimed_fraction_bits_def)

text \<open>
  The two branches of \<open>float_to_fixed_point\<close>. Inside the range of a double the final
  mask never changes the clamped value.
\<close>

lemma float_to_fixed_point_overflow:
  assumes "2 ^ 1024 \<le> \<bar>v * 2 ^ claimed_fraction_bits fid\<bar>"
  shows "float_to_fixed_point v fid = Inl OverflowError"
  using assms
  by (simp add: float_to_fixed_point_def Let_def split_beta snd_fixed_point_format)

lemma float_to_fixed_point_in_range:
  assumes "\<bar>v * 2 ^ claimed_fraction_bits fid\<bar> < 2 ^ 1024"
  shows "float_to_fixed_point v fid =
     Inr (max 0 (min (2 ^ 27 - 1) (py_round (v * 2 ^ claimed_fraction_bits fid))))"
proof -
  let ?c = "max 0 (min (2 ^ 27 - 1) (py_round (v * 2 ^ claimed_fraction_bits fid)))"
  have "0 \<le> ?c" and "?c \<le> 2 ^ 27 - 1"
    by simp_all
  then have "?c AND (0x7FFFFFF :: int) = ?c"
    by (rule and_mask_27_id)
  with assms show ?thesis
    by (simp add: float_to_fixed_point_def Let_def split_beta snd_fixed_point_format)
qed



text \<open>
  Inside the range of a double the quantisation saturates: a scaled rounding above
  \<open>2^27 - 1\<close> gives \<open>2^27 - 1\<close>, a negative value gives 0.
\<close>

lemma quantize_saturates_in_range:
  assumes "\<bar>v * 2 ^ claimed_fraction_bits fid\<bar> < 2 ^ 1024"
  shows "2 ^ 27 - 1 < py_round (v * 2 ^ claimed_fraction_bits fid)
      \<Longrightarrow> float_to_fixed_point v fid = Inr (2 ^ 27 - 1)"
    and "v < 0 \<Longrightarrow> float_to_fixed_point v fid = Inr 0"
proof -
  assume "2 ^ 27 - 1 < py_round (v * 2 ^ claimed_fraction_bits fid)"
  then show "float_to_fixed_point v fid = Inr (2 ^ 27 - 1)"
    by (simp add: float_to_fixed_point_in_range [OF assms])
next
  assume "v < 0"
  then have "v * 2 ^ claimed_fraction_bits fid < 0"
    by (simp add: mult_less_0_iff)
  then have "py_round (v * 2 ^ claimed_fraction_bits fid) \<le> 0"
    by (rule py_round_neg)
  then show "float_to_fixed_point v fid = Inr 0"
    by (simp add: float_to_fixed_point_in_range [OF assms])
qed




text \<open>
  C4. The quantisation does raise: for the doubles \<open>2^1020\<close> and \<open>-2^1020\<close> and
  feature 0 the scaled product is an infinite float and \<open>float_to_fixed_point\<close> raises
  \<open>OverflowError\<close>, where the specification promises \<open>2^27 - 1\<close> and 0.
\<close>

theorem quantize_overflow_raises:
  "float_to_fixed_point (2 ^ 1020) 0 = Inl OverflowError
   \<and> float_to_fixed_point (- (2 ^ 1020)) 0 = Inl OverflowError"
proof -
  have "float_to_fixed_point (2 ^ 1020) 0 = Inl OverflowError"
    by (rule float_to_fixed_point_overflow) (simp add: claimed_fraction_bits_def)
  moreover have "float_to_fixed_point (- (2 ^ 1020)) 0 = Inl OverflowError"
    by (rule float_to_fixed_point_overflow) (simp add: claimed_fraction_bits_def)
  ultimately show ?thesis
    by simp
qed




section \<open>Properties of the node codec\<close>


lemma and_mask_8_zero: "k AND (0xFF :: int) = 0 \<longleftrightarrow> k mod 256 = 0"
proof -
  have "k AND mask 8 = take_bit 8 k"
    by (simp add: take_bit_eq_mask)
  then show ?thesis
    by (simp only: mask_8_numeral) (simp add: take_bit_eq_mod)
qed


lemmas mask_numerals = mask_8_numeral mask_3_numeral mask_27_numeral mask_2_numeral

text \<open>Each field read back from a packed word is the field that went in, masked.\<close>

lemma unpack_node_id: "drop_bit 56 (pack_fields a b c d e f) AND 0xFF = a AND 0xFF"
  unfolding pack_fields_def mask_numerals by (rule bit_eqI) (auto simp add: bit_simps)

lemma unpack_feature_id: "drop_bit 53 (pack_fields a b c d e f) AND 0x7 = b AND 0x7"
  unfolding pack_fields_def mask_numerals by (rule bit_eqI) (auto simp add: bit_simps)

lemma unpack_threshold:
  "drop_bit 26 (pack_fields a b c d e f) AND 0x7FFFFFF = c AND 0x7FFFFFF"
  unfolding pack_fields_def mask_numerals by (rule bit_eqI) (auto simp add: bit_simps)

lemma unpack_right_child: "drop_bit 18 (pack_fields a b c d e f) AND 0xFF = d AND 0xFF"
  unfolding pack_fields_def mask_numerals by (rule bit_eqI) (auto simp add: bit_simps)

lemma unpack_left_child: "drop_bit 10 (pack_fields a b c d e f) AND 0xFF = e AND 0xFF"
  unfolding pack_fields_def mask_numerals by (rule bit_eqI) (auto simp add: bit_simps)

lemma unpack_node_type: "drop_bit 2 (pack_fields a b c d e f) AND 0xFF = f AND 0xFF"
  unfolding pack_fields_def mask_numerals by (rule bit_eqI) (auto simp add: bit_simps)

lemma unpack_reserved: "pack_fields a b c d e f AND 0x3 = 0"
  unfolding pack_fields_def mask_numerals by (rule bit_eqI) (auto simp add: bit_simps)

lemmas unpack_simps = unpack_node_id unpack_feature_id unpack_threshold unpack_right_child
  unpack_left_child unpack_node_type unpack_reserved

lemma decode_pack_fields:
  "decode_node (pack_fields a b c d e f) =
     \<lparr>node_id = a AND 0xFF,
      feature_id = b AND 0x7,
      threshold_raw = c AND 0x7FFFFFF,
      right_child = d AND 0xFF,
      left_child = e AND 0xFF,
      node_type_value = f AND 0xFF,
      node_type =
        (if f AND 0xFF = 1 \<or> (e AND 0xFF = 0 \<and> d AND 0xFF = 0)
         then ''Leaf'' else ''Internal''),
      prediction =
        (if f AND 0xFF = 1 \<or> (e AND 0xFF = 0 \<and> d AND 0xFF = 0)
         then Some (f AND 0xFF) else None),
      reserved = 0\<rparr>"
  by (simp add: decode_node_def Let_def unpack_simps)

text \<open>The feature map of the code is the table of the six codes, with 0 for any other name.\<close>

lemma feature_map_get: "dict_get feature_map name 0 = claimed_feature_id name"
  by (simp add: dict_get_def feature_map_def claimed_feature_id_def)


text \<open>The outcome of \<open>node_to_binary\<close> on a leaf and on any other row.\<close>

lemma node_to_binary_leaf:
  assumes "row_is_leaf r"
  shows "node_to_binary r =
     Inr (pack_fields (Node r) 0 0 (Right_Child r) (Left_Child r)
            (if Prediction r = 1 then 1 else 0))"
  using assms by (simp add: node_to_binary_def row_is_leaf_def Let_def)

lemma node_to_binary_internal:
  assumes "\<not> row_is_leaf r"
  shows "node_to_binary r =
     map_sum id
       (\<lambda>t. pack_fields (Node r) (claimed_feature_id (Feature r)) t (Right_Child r)
              (Left_Child r) 0)
       (float_to_fixed_point (Threshold r) (claimed_feature_id (Feature r)))"
  using assms
  by (auto simp add: node_to_binary_def row_is_leaf_def Let_def feature_map_get
      split: sum.splits)

lemma node_to_binary_returns:
  assumes "row_is_leaf r \<or> threshold_in_range r"
  shows "\<exists>w. node_to_binary r = Inr w"
proof (cases "row_is_leaf r")
  case True
  then show ?thesis
    by (simp add: node_to_binary_leaf)
next
  case False
  with assms have "threshold_in_range r"
    by simp
  then show ?thesis
    unfolding threshold_in_range_def
    by (simp add: node_to_binary_internal [OF False] float_to_fixed_point_in_range)
qed


text \<open>
  What \<open>decode_node\<close> reads from any word \<open>node_to_binary\<close> returns: the node id and
  the children modulo 256, and the leaf rule on the node type and the children.
\<close>

lemma decoded_word:
  assumes "node_to_binary r = Inr w"
  shows "node_id (decode_node w) = Node r AND 0xFF"
    and "left_child (decode_node w) = Left_Child r AND 0xFF"
    and "right_child (decode_node w) = Right_Child r AND 0xFF"
    and "node_type_value (decode_node w) = (if row_is_leaf r \<and> Prediction r = 1 then 1 else 0)"
    and "node_type (decode_node w) = ''Leaf'' \<longleftrightarrow>
       (row_is_leaf r \<and> Prediction r = 1)
       \<or> (Left_Child r mod 256 = 0 \<and> Right_Child r mod 256 = 0)"
proof -
  define f :: int where "f = (if row_is_leaf r \<and> Prediction r = 1 then 1 else 0)"
  have "\<exists>b c. w = pack_fields (Node r) b c (Right_Child r) (Left_Child r) f"
  proof (cases "row_is_leaf r")
    case True
    with assms have "w = pack_fields (Node r) 0 0 (Right_Child r) (Left_Child r) f"
      by (simp add: node_to_binary_leaf f_def)
    then show ?thesis
      by blast
  next
    case False
    show ?thesis
    proof (cases "float_to_fixed_point (Threshold r) (claimed_feature_id (Feature r))")
      case (Inl e)
      with assms False show ?thesis
        by (simp add: node_to_binary_internal)
    next
      case (Inr t)
      with assms False
      have "w = pack_fields (Node r) (claimed_feature_id (Feature r)) t (Right_Child r)
          (Left_Child r) f"
        by (simp add: node_to_binary_internal f_def)
      then show ?thesis
        by blast
    qed
  qed
  then obtain b c where w: "w = pack_fields (Node r) b c (Right_Child r) (Left_Child r) f"
    by blast
  note f = f_def
  have f8: "f AND 0xFF = f"
    unfolding f by simp
  show "node_id (decode_node w) = Node r AND 0xFF"
    and "left_child (decode_node w) = Left_Child r AND 0xFF"
    and "right_child (decode_node w) = Right_Child r AND 0xFF"
    unfolding w by (simp_all add: decode_pack_fields)
  show "node_type_value (decode_node w) = (if row_is_leaf r \<and> Prediction r = 1 then 1 else 0)"
    unfolding w by (simp add: decode_pack_fields f8) (simp add: f)
  show "node_type (decode_node w) = ''Leaf'' \<longleftrightarrow>
       (row_is_leaf r \<and> Prediction r = 1)
       \<or> (Left_Child r mod 256 = 0 \<and> Right_Child r mod 256 = 0)"
    unfolding w by (simp add: decode_pack_fields f8 and_mask_8_zero) (auto simp add: f)
qed





text \<open>
  C2, as stated, fails on a sentinel row with children 3 and 4 and prediction 0: it
  decodes as an internal node.
\<close>

theorem sentinel_leaf_counterexample:
  "Feature
     \<lparr>Node = 0, Feature = ''-1'', Threshold = 0, Left_Child = 3, Right_Child = 4,
      Prediction = 0\<rparr> = ''-1''
   \<and> map_sum id (\<lambda>w. node_type (decode_node w))
       (node_to_binary
          \<lparr>Node = 0, Feature = ''-1'', Threshold = 0, Left_Child = 3, Right_Child = 4,
           Prediction = 0\<rparr>)
     = Inr ''Internal''"
  by (simp add: node_to_binary_def pack_fields_def decode_node_def)

text \<open>
  C2, amended. A row whose feature is the sentinel is encoded to a word that decodes as a
  leaf exactly when the row's prediction is 1 or both children are 0 modulo 256; and
  every row whose children are \<open>(0, 0)\<close>, whatever its feature, is encoded to a word
  that decodes as a leaf.
\<close>

theorem leaf_invariant:
  "(Feature r = ''-1'' \<longrightarrow>
      (\<exists>w. node_to_binary r = Inr w
         \<and> (node_type (decode_node w) = ''Leaf'' \<longleftrightarrow>
              Prediction r = 1 \<or> (Left_Child r mod 256 = 0 \<and> Right_Child r mod 256 = 0))))
   \<and> (Left_Child r = 0 \<and> Right_Child r = 0 \<longrightarrow>
      (\<exists>w. node_to_binary r = Inr w \<and> node_type (decode_node w) = ''Leaf''))"
proof (intro conjI impI)
  assume s: "Feature r = ''-1''"
  then have "row_is_leaf r"
    by (simp add: row_is_leaf_def)
  then obtain w where w: "node_to_binary r = Inr w"
    using node_to_binary_returns by blast
  with s decoded_word(5) [OF w]
  show "\<exists>w. node_to_binary r = Inr w
      \<and> (node_type (decode_node w) = ''Leaf'' \<longleftrightarrow>
           Prediction r = 1 \<or> (Left_Child r mod 256 = 0 \<and> Right_Child r mod 256 = 0))"
    by (auto simp add: row_is_leaf_def)
next
  assume z: "Left_Child r = 0 \<and> Right_Child r = 0"
  then have "row_is_leaf r"
    by (simp add: row_is_leaf_def)
  then obtain w where w: "node_to_binary r = Inr w"
    using node_to_binary_returns by blast
  with z decoded_word(5) [OF w]
  show "\<exists>w. node_to_binary r = Inr w \<and> node_type (decode_node w) = ''Leaf''"
    by simp
qed

theorem leaf_invariant_witness:
  "map_sum id (\<lambda>w. node_type (decode_node w))
     (node_to_binary
        \<lparr>Node = 3, Feature = ''-1'', Threshold = 0, Left_Child = 9, Right_Child = 8,
         Prediction = 1\<rparr>)
     = Inr ''Leaf''
   \<and> map_sum id (\<lambda>w. node_type (decode_node w))
     (node_to_binary
        \<lparr>Node = 4, Feature = ''02'', Threshold = 3 / 2, Left_Child = 0, Right_Child = 0,
         Prediction = 0\<rparr>)
     = Inr ''Leaf''"
  using
    leaf_invariant [of "\<lparr>Node = 3, Feature = ''-1'', Threshold = 0, Left_Child = 9,
      Right_Child = 8, Prediction = 1\<rparr>"]
    leaf_invariant [of "\<lparr>Node = 4, Feature = ''02'', Threshold = 3 / 2, Left_Child = 0,
      Right_Child = 0, Prediction = 0\<rparr>"]
  by auto

section \<open>Properties of the feature extractor\<close>


text \<open>What a call that returns features has computed, and what any call leaves behind.\<close>

lemma convert_single_returns:
  assumes "convert_single self a d ts = (Inr f, self')"
  shows "time_delta f =
      (case ts of
         Some t \<Rightarrow> (case last_timestamp self of Some p \<Rightarrow> min (max (t - p) 0) 1 | None \<Rightarrow> 0)
       | None \<Rightarrow> 0)"
    and "self' = (case ts of Some t \<Rightarrow> self\<lparr>last_timestamp := Some t\<rparr> | None \<Rightarrow> self)"
  using assms
  by (auto simp add: convert_single_def Let_def split: sum.splits option.splits)

lemma convert_single_raises:
  assumes "convert_single self a d ts = (Inl e, self')"
  shows "self' = self"
  using assms
  by (auto simp add: convert_single_def Let_def split: sum.splits option.splits)

lemma convert_single_no_timestamp: "snd (convert_single self a d None) = self"
  by (cases "convert_single self a d None"; cases "fst (convert_single self a d None)")
    (auto dest: convert_single_returns(2) convert_single_raises)


subsection \<open>Arbitration ids that are hexadecimal numbers\<close>

text \<open>
  Deleting a two-character pattern leaves a string without the pattern's second
  character as it is, and skips a run of characters that are not its first.
\<close>

lemma str_remove_pair:
  "str_remove [p, q] (c # cs) =
     (if c = p \<and> cs \<noteq> [] \<and> hd cs = q then str_remove [p, q] (tl cs)
      else c # str_remove [p, q] cs)"
  by (cases cs) simp_all

lemma str_remove_absent:
  "q \<notin> set s \<Longrightarrow> str_remove [p, q] s = s"
proof (induction s)
  case Nil
  then show ?case by simp
next
  case (Cons c cs)
  then have "\<not> (c = p \<and> cs \<noteq> [] \<and> hd cs = q)"
    by (cases cs) auto
  moreover from Cons have "str_remove [p, q] cs = cs"
    by simp
  ultimately show ?case
    by (simp only: str_remove_pair if_False)
qed

lemma str_remove_skip:
  "p \<notin> set ws \<Longrightarrow> str_remove [p, q] (ws @ r) = ws @ str_remove [p, q] r"
proof (induction ws)
  case Nil
  then show ?case by simp
next
  case (Cons c cs)
  then have "\<not> (c = p \<and> cs @ r \<noteq> [] \<and> hd (cs @ r) = q)"
    by auto
  moreover from Cons have "str_remove [p, q] (cs @ r) = cs @ str_remove [p, q] r"
    by simp
  ultimately show ?case
    by (simp only: append_Cons str_remove_pair if_False)
qed




lemma str_isspace_not_digit:
  assumes "str_isspace c"
  shows "digit_value c = None"
proof -
  have "\<forall>c\<in>set [CHR 0x09, CHR 0x0A, CHR 0x0B, CHR 0x0C, CHR 0x0D, CHR 0x1C, CHR 0x1D,
                  CHR 0x1E, CHR 0x1F, CHR 0x20, CHR 0x85, CHR 0xA0]. digit_value c = None"
    by (simp add: digit_value_def)
  moreover from assms
  have "c \<in> set [CHR 0x09, CHR 0x0A, CHR 0x0B, CHR 0x0C, CHR 0x0D, CHR 0x1C, CHR 0x1D,
                  CHR 0x1E, CHR 0x1F, CHR 0x20, CHR 0x85, CHR 0xA0]"
    by (simp only: str_isspace_def List.member_iff)
  ultimately show ?thesis
    by (rule bspec)
qed

lemma int_isspace_not_digit:
  assumes "int_isspace c"
  shows "digit_value c = None"
proof -
  have "\<forall>c\<in>set [CHR 0x09, CHR 0x0A, CHR 0x0B, CHR 0x0C, CHR 0x0D, CHR 0x20, CHR 0x85,
                  CHR 0xA0]. digit_value c = None"
    by (simp add: digit_value_def)
  moreover from assms
  have "c \<in> set [CHR 0x09, CHR 0x0A, CHR 0x0B, CHR 0x0C, CHR 0x0D, CHR 0x20, CHR 0x85,
                  CHR 0xA0]"
    by (simp only: int_isspace_def List.member_iff)
  ultimately show ?thesis
    by (rule bspec)
qed


lemma digit_value_not:
  "digit_value (CHR ''x'') = None" "digit_value (CHR ''X'') = None"
  "digit_value (CHR ''_'') = None" "digit_value (CHR ''+'') = None"
  "digit_value (CHR ''-'') = None"
  by (simp_all add: digit_value_def)

lemma digit_value_chars:
  assumes "digit_value c \<noteq> None"
  shows "c \<noteq> CHR ''x''" and "c \<noteq> CHR ''X''" and "c \<noteq> CHR ''_''"
    and "c \<noteq> CHR ''+''" and "c \<noteq> CHR ''-''"
    and "\<not> str_isspace c" and "\<not> int_isspace c"
proof -
  show "c \<noteq> CHR ''x''" using assms digit_value_not(1) by auto
  show "c \<noteq> CHR ''X''" using assms digit_value_not(2) by auto
  show "c \<noteq> CHR ''_''" using assms digit_value_not(3) by auto
  show "c \<noteq> CHR ''+''" using assms digit_value_not(4) by auto
  show "c \<noteq> CHR ''-''" using assms digit_value_not(5) by auto
  show "\<not> str_isspace c" using assms str_isspace_not_digit by auto
  show "\<not> int_isspace c" using assms int_isspace_not_digit by auto
qed

lemma str_isspace_chars:
  assumes "str_isspace c"
  shows "c \<noteq> CHR ''0''" and "c \<noteq> CHR ''x''" and "c \<noteq> CHR ''X''"
  using assms by (auto simp add: str_isspace_def)


lemma strip_core:
  assumes "\<forall>c\<in>set ws1. P c" and "\<forall>c\<in>set ws2. P c"
    and "m \<noteq> []" and "\<not> P (hd m)" and "\<not> P (last m)"
  shows "rev (dropWhile P (rev (dropWhile P (ws1 @ m @ ws2)))) = m"
proof -
  from assms(3) obtain h t where m: "m = h # t"
    by (cases m) auto
  have "dropWhile P (ws1 @ m @ ws2) = dropWhile P (m @ ws2)"
    by (rule dropWhile_append2) (simp add: assms(1))
  also from m assms(4) have "\<dots> = m @ ws2"
    by simp
  finally have 1: "dropWhile P (ws1 @ m @ ws2) = m @ ws2" .
  from assms(3) have "rev m \<noteq> []"
    by simp
  then obtain l i where r: "rev m = l # i"
    by (cases "rev m") auto
  have "hd (rev m) = last m"
    using assms(3) by (simp add: hd_rev)
  with r have l: "l = last m"
    by simp
  have "dropWhile P (rev ws2 @ rev m) = dropWhile P (rev m)"
    by (rule dropWhile_append2) (simp add: assms(2))
  also have "\<dots> = rev m"
    unfolding r using l assms(5) by simp
  finally have "dropWhile P (rev (m @ ws2)) = rev m"
    by simp
  with 1 show ?thesis
    by simp
qed

lemma hex_digits_all:
  "\<forall>c\<in>set ds. digit_value c \<noteq> None \<Longrightarrow> \<exists>v. hex_digits False ds acc = Some v"
proof (induction ds arbitrary: acc)
  case Nil
  then show ?case by simp
next
  case (Cons c cs)
  then obtain d where d: "digit_value c = Some d"
    by auto
  from Cons.prems have u: "c \<noteq> CHR ''_''"
    by (simp add: digit_value_chars(3))
  from Cons obtain v where "hex_digits False cs (16 * acc + d) = Some v"
    by fastforce
  with d u show ?case
    by simp
qed


lemma take_not_mem:
  assumes "x \<notin> set s" and "x \<in> set t"
  shows "take n s \<noteq> t"
proof
  assume "take n s = t"
  with assms(2) have "x \<in> set (take n s)"
    by simp
  then have "x \<in> set s"
    by (rule in_set_takeD)
  with assms(1) show False
    by simp
qed

lemma digits_free:
  assumes "\<forall>c\<in>set ds. digit_value c \<noteq> None"
  shows "CHR ''x'' \<notin> set ds" and "CHR ''X'' \<notin> set ds" and "CHR ''_'' \<notin> set ds"
    and "CHR ''+'' \<notin> set ds" and "CHR ''-'' \<notin> set ds"
  using assms digit_value_not by auto

lemma int_base16_digits:
  assumes "ds \<noteq> []" and "\<forall>c\<in>set ds. digit_value c \<noteq> None"
  shows "\<exists>v. int_base16 ds = Inr v"
proof -
  from assms have h: "\<not> int_isspace (hd ds)" and l: "\<not> int_isspace (last ds)"
    by (simp_all add: digit_value_chars(7))
  have "rev (dropWhile int_isspace (rev (dropWhile int_isspace ([] @ ds @ [])))) = ds"
    using assms(1) h l by (intro strip_core) simp_all
  then have s1: "rev (dropWhile int_isspace (rev (dropWhile int_isspace ds))) = ds"
    by simp
  note free = digits_free [OF assms(2)]
  have t1: "take 1 ds \<noteq> ''+''" "take 1 ds \<noteq> ''-''" "take 1 ds \<noteq> ''_''"
    by (rule take_not_mem [OF free(4)], simp, rule take_not_mem [OF free(5)], simp,
        rule take_not_mem [OF free(3)], simp)
  have t2: "take 2 ds \<noteq> ''0x''" "take 2 ds \<noteq> ''0X''"
    by (rule take_not_mem [OF free(1)], simp, rule take_not_mem [OF free(2)], simp)
  from hex_digits_all [OF assms(2), of 0] obtain v where v: "hex_digits False ds 0 = Some v"
    by blast
  have "int_base16 ds = Inr v"
    unfolding int_base16_def s1 Let_def
    by (simp only: t1 t2 v assms(1) if_False simp_thms option.case)
  then show ?thesis
    by blast
qed





lemma spaces_free:
  assumes ws1: "\<forall>c\<in>set ws1. str_isspace c" and ws2: "\<forall>c\<in>set ws2. str_isspace c"
  shows "CHR ''0'' \<notin> set ws1" "CHR ''x'' \<notin> set ws1" "CHR ''X'' \<notin> set ws1" "CHR ''x'' \<notin> set ws2" "CHR ''X'' \<notin> set ws2"
proof -
  show "CHR ''0'' \<notin> set ws1" using ws1 str_isspace_chars(1) by blast
  show "CHR ''x'' \<notin> set ws1" using ws1 str_isspace_chars(2) by blast
  show "CHR ''X'' \<notin> set ws1" using ws1 str_isspace_chars(3) by blast
  show "CHR ''x'' \<notin> set ws2" using ws2 str_isspace_chars(2) by blast
  show "CHR ''X'' \<notin> set ws2" using ws2 str_isspace_chars(3) by blast
qed



lemma prefix_removed:
  assumes w1: "CHR ''0'' \<notin> set ws1" "CHR ''x'' \<notin> set ws1" "CHR ''X'' \<notin> set ws1"
    and nx: "CHR ''x'' \<notin> set (ds @ ws2)" and nX: "CHR ''X'' \<notin> set (ds @ ws2)"
    and pre: "pre = [] \<or> pre = ''0x'' \<or> pre = ''0X''"
  shows "str_remove ''0X'' (str_remove ''0x'' (ws1 @ pre @ ds @ ws2)) = ws1 @ ds @ ws2"
proof -
  have nx': "CHR ''x'' \<notin> set (ws1 @ ds @ ws2)" and nX': "CHR ''X'' \<notin> set (ws1 @ ds @ ws2)"
    using nx nX w1 by simp_all
  have keep_x: "str_remove ''0x'' (ws1 @ ds @ ws2) = ws1 @ ds @ ws2"
    using nx' by (rule str_remove_absent)
  have keep_X: "str_remove ''0X'' (ws1 @ ds @ ws2) = ws1 @ ds @ ws2"
    using nX' by (rule str_remove_absent)
  consider "pre = []" | "pre = ''0x''" | "pre = ''0X''"
    using pre by blast
  then show ?thesis
  proof cases
    case 1
    then show ?thesis
      by (simp only: append_Nil keep_x keep_X)
  next
    case 2
    have "str_remove ''0x'' (ws1 @ ''0x'' @ ds @ ws2)
        = ws1 @ str_remove ''0x'' (''0x'' @ ds @ ws2)"
      using w1(1) by (rule str_remove_skip)
    also have "str_remove ''0x'' (''0x'' @ ds @ ws2) = str_remove ''0x'' (ds @ ws2)"
      by simp
    also have "\<dots> = ds @ ws2"
      using nx by (rule str_remove_absent)
    finally have "str_remove ''0x'' (ws1 @ ''0x'' @ ds @ ws2) = ws1 @ ds @ ws2" .
    with 2 show ?thesis
      by (simp only: keep_X)
  next
    case 3
    have "CHR ''x'' \<notin> set (ws1 @ ''0X'' @ ds @ ws2)"
      using nx w1(2) by simp
    then have "str_remove ''0x'' (ws1 @ ''0X'' @ ds @ ws2) = ws1 @ ''0X'' @ ds @ ws2"
      by (rule str_remove_absent)
    moreover have "str_remove ''0X'' (ws1 @ ''0X'' @ ds @ ws2)
        = ws1 @ str_remove ''0X'' (''0X'' @ ds @ ws2)"
      using w1(1) by (rule str_remove_skip)
    moreover have "str_remove ''0X'' (''0X'' @ ds @ ws2) = str_remove ''0X'' (ds @ ws2)"
      by simp
    moreover have "str_remove ''0X'' (ds @ ws2) = ds @ ws2"
      using nX by (rule str_remove_absent)
    ultimately show ?thesis
      using 3 by (simp only:)
  qed
qed


lemma zero_not_space: "\<not> str_isspace (CHR ''0'')"
  by (simp add: str_isspace_def)

text \<open>
  A textual arbitration id that is a hexadecimal number (white space, an optional
  \<open>0x\<close>/\<open>0X\<close> prefix, one or more hexadecimal digits, white space) is never refused:
  \<open>convert_single\<close> reads it to the value the specification's parse gives.
\<close>

lemma valid_hexadecimal_parses:
  assumes ws1: "\<forall>c\<in>set ws1. str_isspace c" and ws2: "\<forall>c\<in>set ws2. str_isspace c"
    and pre: "pre = [] \<or> pre = ''0x'' \<or> pre = ''0X''"
    and ds: "ds \<noteq> []" "\<forall>c\<in>set ds. digit_value c \<noteq> None"
  shows "\<exists>v. parse_arbitration_id (ArbStr (ws1 @ pre @ ds @ ws2)) = Inr v
    \<and> claimed_arb_id_parse (ws1 @ pre @ ds @ ws2) = Inr v"
proof -
  note free = digits_free [OF ds(2)]
  note w = spaces_free [OF ws1 ws2]
  have nx: "CHR ''x'' \<notin> set (ds @ ws2)" and nX: "CHR ''X'' \<notin> set (ds @ ws2)"
    using free(1,2) w(4,5) by simp_all
  have removed: "str_remove ''0X'' (str_remove ''0x'' (ws1 @ pre @ ds @ ws2)) = ws1 @ ds @ ws2"
    using w(1,2,3) nx nX pre by (rule prefix_removed)
  have hl: "\<not> str_isspace (hd ds)" "\<not> str_isspace (last ds)"
    using ds by (simp_all add: digit_value_chars(6))
  have code: "str_strip (ws1 @ ds @ ws2) = ds"
    unfolding str_strip_def using ws1 ws2 ds(1) hl by (rule strip_core)
  have ne: "pre @ ds \<noteq> []"
    using ds(1) by simp
  have hd_pre: "\<not> str_isspace (hd (pre @ ds))"
  proof (cases "pre = []")
    case True
    with hl(1) show ?thesis
      by simp
  next
    case False
    with pre have "hd (pre @ ds) = CHR ''0''"
      by auto
    with zero_not_space show ?thesis
      by simp
  qed
  have last_pre: "\<not> str_isspace (last (pre @ ds))"
    using ds(1) hl(2) by simp
  have "str_strip (ws1 @ (pre @ ds) @ ws2) = pre @ ds"
    unfolding str_strip_def using ws1 ws2 ne hd_pre last_pre by (rule strip_core)
  then have spec: "str_strip (ws1 @ pre @ ds @ ws2) = pre @ ds"
    by simp
  have t2: "take 2 ds \<noteq> ''0x''" "take 2 ds \<noteq> ''0X''"
    by (rule take_not_mem [OF free(1)], simp, rule take_not_mem [OF free(2)], simp)
  have stripped: "(if take 2 (pre @ ds) = ''0x'' \<or> take 2 (pre @ ds) = ''0X''
      then drop 2 (pre @ ds) else pre @ ds) = ds"
    using pre t2 by auto
  from int_base16_digits [OF ds] obtain v where v: "int_base16 ds = Inr v"
    by blast
  have "parse_arbitration_id (ArbStr (ws1 @ pre @ ds @ ws2)) = Inr v"
    unfolding parse_arbitration_id_def by (simp only: arb_id.case removed code v)
  moreover have "claimed_arb_id_parse (ws1 @ pre @ ds @ ws2) = Inr v"
    unfolding claimed_arb_id_parse_def Let_def by (simp only: spec stripped v)
  ultimately show ?thesis
    by blast
qed

text \<open>
  C7. The arbitration id \<open>10x2\<close> is not a hexadecimal number with an optional prefix:
  read as the specification says it is refused. \<open>convert_single\<close> deletes the \<open>0x\<close>
  inside it and returns 18.
\<close>

theorem arb_id_interior_prefix:
  "convert_single \<lparr>last_timestamp = None\<rparr> (ArbStr ''10x2'') ''0102'' None =
     (Inr \<lparr>arb_id_dec = 18, data_length = 4, first_byte = 1, last_byte = 2, byte_sum = 3,
           time_delta = 0\<rparr>,
      \<lparr>last_timestamp = None\<rparr>)
   \<and> claimed_arb_id_parse ''10x2'' = Inl ValueError"
  by code_simp

text \<open>
  C8. On a fresh converter (no previous timestamp), three records with the timestamps
  100.0, 99.0 and 101.5, each of which yields features, have the time deltas 0.0, 0.0
  and 1.0: the first record gives zero, the negative difference is raised to 0.0 and the
  difference 2.5 is capped at 1.0. After each record the previous timestamp is that
  record's timestamp.
\<close>

theorem time_delta_clamping:
  assumes "convert_single \<lparr>last_timestamp = None\<rparr> a1 d1 (Some 100) = (Inr f1, s1)"
    and "convert_single s1 a2 d2 (Some 99) = (Inr f2, s2)"
    and "convert_single s2 a3 d3 (Some (203 / 2)) = (Inr f3, s3)"
  shows "time_delta f1 = 0 \<and> last_timestamp s1 = Some 100
    \<and> time_delta f2 = 0 \<and> last_timestamp s2 = Some 99
    \<and> time_delta f3 = 1 \<and> last_timestamp s3 = Some (203 / 2)"
proof -
  from convert_single_returns [OF assms(1)]
  have 1: "time_delta f1 = 0" "s1 = \<lparr>last_timestamp = Some 100\<rparr>"
    by simp_all
  from convert_single_returns [OF assms(2)] 1
  have 2: "time_delta f2 = 0" "s2 = \<lparr>last_timestamp = Some 99\<rparr>"
    by simp_all
  from convert_single_returns [OF assms(3)] 2
  have 3: "time_delta f3 = 1" "s3 = \<lparr>last_timestamp = Some (203 / 2)\<rparr>"
    by simp_all
  from 1 2 3 show ?thesis
    by simp
qed

theorem time_delta_clamping_witness:
  "convert_single \<lparr>last_timestamp = None\<rparr> (ArbStr ''0x123'') ''0102'' (Some 100) =
     (Inr \<lparr>arb_id_dec = 291, data_length = 4, first_byte = 1, last_byte = 2, byte_sum = 3,
           time_delta = 0\<rparr>,
      \<lparr>last_timestamp = Some 100\<rparr>)
   \<and> convert_single \<lparr>last_timestamp = Some 100\<rparr> (ArbInt 291) ''0102030405060708'' (Some 99) =
     (Inr \<lparr>arb_id_dec = 291, data_length = 16, first_byte = 1, last_byte = 8, byte_sum = 36,
           time_delta = 0\<rparr>,
      \<lparr>last_timestamp = Some 99\<rparr>)
   \<and> convert_single \<lparr>last_timestamp = Some 99\<rparr> (ArbStr ''1A'') ''ff'' (Some (203 / 2)) =
     (Inr \<lparr>arb_id_dec = 26, data_length = 2, first_byte = 255, last_byte = 255, byte_sum = 255,
           time_delta = 1\<rparr>,
      \<lparr>last_timestamp = Some (203 / 2)\<rparr>)"
proof -
  have 1: "convert_single \<lparr>last_timestamp = None\<rparr> (ArbStr ''0x123'') ''0102'' (Some 100) =
     (Inr \<lparr>arb_id_dec = 291, data_length = 4, first_byte = 1, last_byte = 2, byte_sum = 3,
           time_delta = 0\<rparr>,
      \<lparr>last_timestamp = Some 100\<rparr>)"
    by code_simp
  have 2: "convert_single \<lparr>last_timestamp = Some 100\<rparr> (ArbInt 291) ''0102030405060708'' (Some 99) =
     (Inr \<lparr>arb_id_dec = 291, data_length = 16, first_byte = 1, last_byte = 8, byte_sum = 36,
           time_delta = 0\<rparr>,
      \<lparr>last_timestamp = Some 99\<rparr>)"
    by code_simp
  have 3: "convert_single \<lparr>last_timestamp = Some 99\<rparr> (ArbStr ''1A'') ''ff'' (Some (203 / 2)) =
     (Inr \<lparr>arb_id_dec = 26, data_length = 2, first_byte = 255, last_byte = 255, byte_sum = 255,
           time_delta = 1\<rparr>,
      \<lparr>last_timestamp = Some (203 / 2)\<rparr>)"
    by code_simp
  from 1 2 3 time_delta_clamping [OF 1 2 3] show ?thesis
    by simp
qed

text \<open>
  C9. A call without a timestamp leaves the converter as it was, whatever its state and
  whether or not the call raises; the features it returns have time delta 0.0. So a
  later record with a timestamp \<open>t\<close> takes its delta against the last record that had a
  timestamp, and then stores \<open>t\<close>.
\<close>

theorem no_timestamp_frame:
  "snd (convert_single self a d None) = self
   \<and> (fst (convert_single self a d None) = Inr f \<longrightarrow> time_delta f = 0)
   \<and> (convert_single (snd (convert_single self a d None)) a' d' (Some t) = (Inr f', self')
        \<longrightarrow> time_delta f' =
              (case last_timestamp self of Some p \<Rightarrow> min (max (t - p) 0) 1 | None \<Rightarrow> 0)
            \<and> last_timestamp self' = Some t)"
proof (intro conjI impI)
  show "snd (convert_single self a d None) = self"
    by (rule convert_single_no_timestamp)
next
  assume "fst (convert_single self a d None) = Inr f"
  then have "convert_single self a d None = (Inr f, snd (convert_single self a d None))"
    by (simp add: prod_eq_iff)
  from convert_single_returns(1) [OF this] show "time_delta f = 0"
    by simp
next
  assume *: "convert_single (snd (convert_single self a d None)) a' d' (Some t) = (Inr f', self')"
  then have **: "convert_single self a' d' (Some t) = (Inr f', self')"
    by (simp only: convert_single_no_timestamp)
  from convert_single_returns(1) [OF **]
  show "time_delta f' = (case last_timestamp self of Some p \<Rightarrow> min (max (t - p) 0) 1 | None \<Rightarrow> 0)"
    by simp
  from convert_single_returns(2) [OF **] show "last_timestamp self' = Some t"
    by simp
qed

theorem no_timestamp_frame_witness:
  "convert_single \<lparr>last_timestamp = Some 100\<rparr> (ArbStr ''0x123'') ''0102'' None =
     (Inr \<lparr>arb_id_dec = 291, data_length = 4, first_byte = 1, last_byte = 2, byte_sum = 3,
           time_delta = 0\<rparr>,
      \<lparr>last_timestamp = Some 100\<rparr>)
   \<and> convert_single \<lparr>last_timestamp = Some 100\<rparr> (ArbStr ''0x124'') ''0a'' (Some (401 / 4)) =
     (Inr \<lparr>arb_id_dec = 292, data_length = 2, first_byte = 10, last_byte = 10, byte_sum = 10,
           time_delta = 1 / 4\<rparr>,
      \<lparr>last_timestamp = Some (401 / 4)\<rparr>)"
proof -
  let ?s = "\<lparr>last_timestamp = Some 100\<rparr>"
  let ?f = "\<lparr>arb_id_dec = 291, data_length = 4, first_byte = 1, last_byte = 2, byte_sum = 3,
           time_delta = 0\<rparr>"
  let ?f' = "\<lparr>arb_id_dec = 292, data_length = 2, first_byte = 10, last_byte = 10, byte_sum = 10,
           time_delta = 1 / 4\<rparr>"
  have 1: "convert_single ?s (ArbStr ''0x123'') ''0102'' None = (Inr ?f, ?s)"
    by code_simp
  have 2: "convert_single ?s (ArbStr ''0x124'') ''0a'' (Some (401 / 4)) =
      (Inr ?f', \<lparr>last_timestamp = Some (401 / 4)\<rparr>)"
    by code_simp
  from 1 2
    no_timestamp_frame [of ?s "ArbStr ''0x123''" "''0102''" ?f "ArbStr ''0x124''" "''0a''"
      "401 / 4" ?f' "\<lparr>last_timestamp = Some (401 / 4)\<rparr>"]
  show ?thesis
    by simp
qed

subsection \<open>Two-character chunks\<close>
















end
